theory Spec2Isabelle
  imports Main
begin

section \<open>A shallow embedding of BlockchainDemoPY.py\<close>

text \<open>
  The program has three classes, \<^verbatim>\<open>Transaction\<close>, \<^verbatim>\<open>Block\<close> and \<^verbatim>\<open>Chain\<close>.
  Each class is a record, each method a function that takes the object and returns the
  outcome together with the object as the method leaves it. An exception is a value of
  type \<open>error\<close>; a method that may loop forever (mining) returns an \<open>option\<close>, where
  \<open>None\<close> stands for a call that never returns.

  Python strings and byte strings are both \<open>string\<close>; \<^verbatim>\<open>.encode()\<close> is the identity.
  Amounts are Python integers (the constructor is called with 100 and with
  \<^verbatim>\<open>miner_reward = 50\<close>), so \<^verbatim>\<open>str(amount)\<close> is a decimal numeral.
\<close>

subsection \<open>Exceptions\<close>

text \<open>
  Every \<^verbatim>\<open>raise\<close> of the source raises \<^verbatim>\<open>ValueError\<close>; the four raise sites differ in
  their message only, which is what \<open>msg\<close> records:
  \<^item> \<open>MissingSignature\<close>: \<^verbatim>\<open>Transaction.is_valid\<close>, line 77;
  \<^item> \<open>TamperedTransaction\<close>: \<^verbatim>\<open>Block.mine\<close>, line 142;
  \<^item> \<open>InvalidAddress\<close>: \<^verbatim>\<open>Chain.add_transaction\<close>, line 203;
  \<^item> \<open>InvalidTransaction\<close>: \<^verbatim>\<open>Chain.add_transaction\<close>, line 207.

  \<open>IndexError\<close> is what \<^verbatim>\<open>self.chain[-1]\<close> raises on an empty list.
\<close>

datatype msg = MissingSignature | TamperedTransaction | InvalidAddress | InvalidTransaction

datatype error = ValueError msg | IndexError

type_synonym 'a result = "error + 'a"

subsection \<open>Python's \<^verbatim>\<open>str\<close> on integers and on optional strings\<close>

definition digit_char :: "nat \<Rightarrow> char" where
  "digit_char n = ''0123456789'' ! n"

fun str_nat :: "nat \<Rightarrow> string" where
  "str_nat n = (if n < 10 then [digit_char n] else str_nat (n div 10) @ [digit_char (n mod 10)])"

declare str_nat.simps [simp del]

definition str_int :: "int \<Rightarrow> string" where
  "str_int i = (if i < 0 then CHR ''-'' # str_nat (nat (- i)) else str_nat (nat i))"

text \<open>An f-string renders \<^verbatim>\<open>None\<close> as the four characters \<^verbatim>\<open>None\<close>.\<close>

definition str_opt :: "string option \<Rightarrow> string" where
  "str_opt a = (case a of None \<Rightarrow> ''None'' | Some s \<Rightarrow> s)"

text \<open>\<^verbatim>\<open>s[:k]\<close>: a negative \<open>k\<close> counts from the end of the string.\<close>

definition py_prefix :: "string \<Rightarrow> int \<Rightarrow> string" where
  "py_prefix s k = (if 0 \<le> k then take (nat k) s else take (nat (int (length s) + k)) s)"

text \<open>Truthiness of an optional string: \<^verbatim>\<open>None\<close> and the empty string are falsy.\<close>

definition falsy :: "string option \<Rightarrow> bool" where
  "falsy a = (case a of None \<Rightarrow> True | Some s \<Rightarrow> s = [])"

subsection \<open>Transaction\<close>

text \<open>
  The annotation of \<^verbatim>\<open>to_address\<close> is \<^verbatim>\<open>str\<close>, but Python does not enforce it and
  \<^verbatim>\<open>add_transaction\<close> tests the field for being falsy, so the field is optional here as
  \<^verbatim>\<open>from_address\<close> is. \<^verbatim>\<open>signature\<close> is \<^verbatim>\<open>None\<close> or a byte string.
\<close>

record Transaction =
  from_address :: "string option"
  to_address :: "string option"
  amount :: int
  signature :: "string option"

text \<open>
  The library calls of the program are parameters of the model:
  \<^item> \<open>sha256 s\<close> is \<^verbatim>\<open>hashlib.sha256(s.encode()).hexdigest()\<close>;
  \<^item> \<open>json_dumps txs\<close> is \<^verbatim>\<open>json.dumps([tx.__dict__ for tx in txs], default=str)\<close>;
  \<^item> \<open>from_encoded_point a\<close> is
    \<^verbatim>\<open>ec.EllipticCurvePublicKey.from_encoded_point(ec.SECP256K1(), bytes.fromhex(a))\<close>,
    with \<open>None\<close> when either call raises \<^verbatim>\<open>ValueError\<close>;
  \<^item> \<open>ecdsa_verify k sg m\<close> is \<^verbatim>\<open>k.verify(sg, m, ec.ECDSA(hashes.SHA256()))\<close>, with
    \<open>False\<close> when it raises \<^verbatim>\<open>InvalidSignature\<close>;
  \<^item> \<open>ecdsa_sign k r m\<close> is \<^verbatim>\<open>k.sign(m, ec.ECDSA(hashes.SHA256()))\<close>, where \<open>r\<close> is the
    randomness the signer draws.
  Keys are represented by strings.
\<close>

record env =
  sha256 :: "string \<Rightarrow> string"
  json_dumps :: "Transaction list \<Rightarrow> string"
  from_encoded_point :: "string \<Rightarrow> string option"
  ecdsa_verify :: "string \<Rightarrow> string \<Rightarrow> string \<Rightarrow> bool"
  ecdsa_sign :: "string \<Rightarrow> nat \<Rightarrow> string \<Rightarrow> string"

definition Transaction_init :: "string option \<Rightarrow> string option \<Rightarrow> int \<Rightarrow> Transaction" where
  "Transaction_init from_addr to_addr amt =
     \<lparr>from_address = from_addr, to_address = to_addr, amount = amt, signature = None\<rparr>"

definition Transaction_compute_hash :: "env \<Rightarrow> Transaction \<Rightarrow> string" where
  "Transaction_compute_hash E t =
     sha256 E (str_opt (from_address t) @ str_opt (to_address t) @ str_int (amount t))"

text \<open>
  \<^verbatim>\<open>sign\<close> has no \<^verbatim>\<open>raise\<close> and no test of the old signature: it always assigns.
\<close>

definition sign :: "env \<Rightarrow> string \<Rightarrow> nat \<Rightarrow> Transaction \<Rightarrow> unit result \<times> Transaction" where
  "sign E private_key r t =
     (let transaction_hash = Transaction_compute_hash E t
      in (Inr (), t\<lparr>signature := Some (ecdsa_sign E private_key r transaction_hash)\<rparr>))"

text \<open>
  \<^verbatim>\<open>is_valid\<close>: the test \<^verbatim>\<open>not self.signature\<close> holds for \<^verbatim>\<open>None\<close> and for the empty
  byte string; it and its \<^verbatim>\<open>raise\<close> stand before the \<^verbatim>\<open>try\<close>, so that error
  propagates. Inside the \<^verbatim>\<open>try\<close>, both \<^verbatim>\<open>ValueError\<close> (a malformed address) and
  \<^verbatim>\<open>InvalidSignature\<close> are caught and turned into \<^verbatim>\<open>False\<close>.
\<close>

definition is_valid :: "env \<Rightarrow> Transaction \<Rightarrow> bool result" where
  "is_valid E t =
     (case from_address t of
        None \<Rightarrow> Inr True
      | Some addr \<Rightarrow>
          (case signature t of
             None \<Rightarrow> Inl (ValueError MissingSignature)
           | Some sg \<Rightarrow>
               if sg = [] then Inl (ValueError MissingSignature)
               else (case from_encoded_point E addr of
                       None \<Rightarrow> Inr False
                     | Some public_key \<Rightarrow>
                         if ecdsa_verify E public_key sg (Transaction_compute_hash E t)
                         then Inr True else Inr False)))"

subsection \<open>Block\<close>

record Block =
  transactions :: "Transaction list"
  previous_hash :: string
  timestamp :: int
  nonce :: int
  hash :: string

definition Block_compute_hash :: "env \<Rightarrow> Block \<Rightarrow> string" where
  "Block_compute_hash E b =
     sha256 E (json_dumps E (transactions b) @ previous_hash b @ str_int (nonce b)
               @ str_int (timestamp b))"

text \<open>
  The constructor reads the clock; \<open>now\<close> is \<^verbatim>\<open>int(time.time() * 1000)\<close> at that moment.
\<close>

definition Block_init :: "env \<Rightarrow> Transaction list \<Rightarrow> string \<Rightarrow> int \<Rightarrow> Block" where
  "Block_init E txs prev now =
     (let b = \<lparr>transactions = txs, previous_hash = prev, timestamp = now, nonce = 1, hash = []\<rparr>
      in b\<lparr>hash := Block_compute_hash E b\<rparr>)"

text \<open>\<^verbatim>\<open>"0" * difficulty\<close>: the empty string when \<open>difficulty\<close> is not positive.\<close>

definition get_answer :: "int \<Rightarrow> string" where
  "get_answer difficulty = replicate (nat difficulty) CHR ''0''"

fun validate_transactions_loop :: "env \<Rightarrow> Transaction list \<Rightarrow> bool result" where
  "validate_transactions_loop E [] = Inr True"
| "validate_transactions_loop E (t # ts) =
     (case is_valid E t of
        Inl e \<Rightarrow> Inl e
      | Inr v \<Rightarrow> if \<not> v then Inr False else validate_transactions_loop E ts)"

definition validate_transactions :: "env \<Rightarrow> Block \<Rightarrow> bool result" where
  "validate_transactions E b = validate_transactions_loop E (transactions b)"

text \<open>
  The \<^verbatim>\<open>while True\<close> loop of \<^verbatim>\<open>mine\<close>. It has no bound, so it is a partial function:
  \<open>None\<close> is the search that never ends.
\<close>

partial_function (option) mine_loop :: "env \<Rightarrow> int \<Rightarrow> Block \<Rightarrow> Block option" where
  "mine_loop E difficulty b =
     (let b1 = b\<lparr>hash := Block_compute_hash E b\<rparr>
      in if py_prefix (hash b1) difficulty \<noteq> get_answer difficulty
         then (let b2 = b1\<lparr>nonce := nonce b1 + 1\<rparr>
               in mine_loop E difficulty (b2\<lparr>hash := Block_compute_hash E b2\<rparr>))
         else Some b1)"

definition mine :: "env \<Rightarrow> int \<Rightarrow> Block \<Rightarrow> (unit result \<times> Block) option" where
  "mine E difficulty b =
     (case validate_transactions E b of
        Inl e \<Rightarrow> Some (Inl e, b)
      | Inr v \<Rightarrow>
          if \<not> v then Some (Inl (ValueError TamperedTransaction), b)
          else (case mine_loop E difficulty b of
                  None \<Rightarrow> None
                | Some b' \<Rightarrow> Some (Inr (), b')))"

subsection \<open>Chain\<close>

text \<open>
  \<^verbatim>\<open>self.chain\<close> is a list of references to \<^verbatim>\<open>Block\<close> objects, and
  \<^verbatim>\<open>add_block_to_chain\<close> assigns to the fields of a block that its caller passes by
  reference. So blocks live in a store, \<open>heap\<close>, and a reference is an index into it;
  \<open>chain\<close> lists references. The record holds the four fields of the \<^verbatim>\<open>Chain\<close> object
  and the store. No method of \<^verbatim>\<open>Chain\<close> assigns to a field of a \<^verbatim>\<open>Transaction\<close>, and
  the list object of the pool is replaced by a new one when a block has taken it, so
  transactions and lists of transactions are values.
\<close>

record Chain =
  heap :: "Block list"
  chain :: "nat list"
  transaction_pool :: "Transaction list"
  miner_reward :: int
  difficulty :: int

text \<open>The blocks of the chain, in order: what \<^verbatim>\<open>self.chain[i]\<close> denotes.\<close>

definition blocks :: "Chain \<Rightarrow> Block list" where
  "blocks c = map (\<lambda>r. heap c ! r) (chain c)"


definition big_bang :: "env \<Rightarrow> int \<Rightarrow> Block" where
  "big_bang E now = Block_init E [] [] now"

definition Chain_init :: "env \<Rightarrow> int \<Rightarrow> int \<Rightarrow> Chain" where
  "Chain_init E d now =
     \<lparr>heap = [big_bang E now], chain = [0], transaction_pool = [], miner_reward = 50,
      difficulty = d\<rparr>"

definition set_difficulty :: "int \<Rightarrow> Chain \<Rightarrow> Chain" where
  "set_difficulty d c = c\<lparr>difficulty := d\<rparr>"

text \<open>\<^verbatim>\<open>self.chain[-1]\<close>, a reference.\<close>

definition get_latest_block :: "Chain \<Rightarrow> nat result" where
  "get_latest_block c = (if chain c = [] then Inl IndexError else Inr (last (chain c)))"

definition add_transaction :: "env \<Rightarrow> Transaction \<Rightarrow> Chain \<Rightarrow> unit result \<times> Chain" where
  "add_transaction E t c =
     (if falsy (from_address t) \<or> falsy (to_address t) then (Inl (ValueError InvalidAddress), c)
      else (case is_valid E t of
              Inl e \<Rightarrow> (Inl e, c)
            | Inr v \<Rightarrow>
                if \<not> v then (Inl (ValueError InvalidTransaction), c)
                else (Inr (), c\<lparr>transaction_pool := transaction_pool c @ [t]\<rparr>)))"

text \<open>
  \<^verbatim>\<open>add_block_to_chain\<close>: \<open>r\<close> is the reference the caller passes. The assignment to
  \<^verbatim>\<open>previous_hash\<close> and the mining both write to the object at \<open>r\<close>, whether or not it is
  already in the chain.
\<close>

definition add_block_to_chain :: "env \<Rightarrow> nat \<Rightarrow> Chain \<Rightarrow> (unit result \<times> Chain) option" where
  "add_block_to_chain E r c =
     (case get_latest_block c of
        Inl e \<Rightarrow> Some (Inl e, c)
      | Inr l \<Rightarrow>
          (let c1 = c\<lparr>heap := (heap c)[r := (heap c ! r)\<lparr>previous_hash := hash (heap c ! l)\<rparr>]\<rparr>
           in case mine E (difficulty c1) (heap c1 ! r) of
                None \<Rightarrow> None
              | Some (Inl e, b') \<Rightarrow> Some (Inl e, c1\<lparr>heap := (heap c1)[r := b']\<rparr>)
              | Some (Inr u, b') \<Rightarrow>
                  Some (Inr (), c1\<lparr>heap := (heap c1)[r := b'], chain := chain c1 @ [r]\<rparr>)))"

text \<open>
  \<^verbatim>\<open>mine_transaction_pool\<close>: the reward transaction is appended to the pool first. The
  new block is a local object until it is appended, so it enters the store only then;
  \<open>now\<close> is the clock its constructor reads.
\<close>

definition mine_transaction_pool ::
  "env \<Rightarrow> int \<Rightarrow> string option \<Rightarrow> Chain \<Rightarrow> (unit result \<times> Chain) option" where
  "mine_transaction_pool E now miner_reward_address c =
     (let miner_reward_transaction = Transaction_init None miner_reward_address (miner_reward c);
          c1 = c\<lparr>transaction_pool := transaction_pool c @ [miner_reward_transaction]\<rparr>
      in case get_latest_block c1 of
           Inl e \<Rightarrow> Some (Inl e, c1)
         | Inr l \<Rightarrow>
             (let new_block = Block_init E (transaction_pool c1) (hash (heap c1 ! l)) now
              in case mine E (difficulty c1) new_block of
                   None \<Rightarrow> None
                 | Some (Inl e, b') \<Rightarrow> Some (Inl e, c1)
                 | Some (Inr u, b') \<Rightarrow>
                     Some (Inr (), c1\<lparr>heap := heap c1 @ [b'],
                                      chain := chain c1 @ [length (heap c1)],
                                      transaction_pool := []\<rparr>)))"

text \<open>
  \<^verbatim>\<open>validate_chain\<close>: the loop \<^verbatim>\<open>for i in range(1, len(self.chain))\<close> over the blocks
  \<open>bs\<close>, from index \<open>i\<close> on.
\<close>

function validate_chain_loop :: "env \<Rightarrow> Block list \<Rightarrow> nat \<Rightarrow> bool result" where
  "validate_chain_loop E bs i =
     (if i < length bs then
        (let block_to_validate = bs ! i
         in case validate_transactions E block_to_validate of
              Inl e \<Rightarrow> Inl e
            | Inr v \<Rightarrow>
                if \<not> v then Inr False
                else if hash block_to_validate \<noteq> Block_compute_hash E block_to_validate
                then Inr False
                else (let previous_block = bs ! (i - 1)
                      in if previous_hash block_to_validate \<noteq> hash previous_block
                         then Inr False
                         else validate_chain_loop E bs (Suc i)))
      else Inr True)"
  by pat_completeness auto
termination
  by (relation "measure (\<lambda>(E, bs, i). length bs - i)") auto

declare validate_chain_loop.simps [simp del]

definition validate_chain :: "env \<Rightarrow> Chain \<Rightarrow> bool result" where
  "validate_chain E c =
     (let bs = blocks c
      in if length bs = 1
         then (if hash (bs ! 0) \<noteq> Block_compute_hash E (bs ! 0) then Inr False else Inr True)
         else validate_chain_loop E bs 1)"

subsection \<open>A concrete instance of the library\<close>

text \<open>
  To run the model, the library parameters are instantiated by small functions: the
  digest of a string is its reversal, the serialisation of a transaction list writes the
  fields of each transaction between brackets, an address is well formed when it is a
  non-empty string of hexadecimal digits of even length, the public key of a private key
  is the key itself, and the signature of a message under a key is the key followed by
  the message.
\<close>

definition demo_tx_repr :: "Transaction \<Rightarrow> string" where
  "demo_tx_repr t =
     ''{'' @ str_opt (from_address t) @ '','' @ str_opt (to_address t) @ '','' @
     str_int (amount t) @ '','' @ str_opt (signature t) @ ''}''"

definition demo_env :: env where
  "demo_env =
     \<lparr>sha256 = rev,
      json_dumps = (\<lambda>txs. ''['' @ concat (map demo_tx_repr txs) @ '']''),
      from_encoded_point =
        (\<lambda>a. if a \<noteq> [] \<and> even (length a) \<and> list_all (\<lambda>c. c \<in> set ''0123456789abcdef'') a
              then Some a else None),
      ecdsa_verify = (\<lambda>k sg m. sg = k @ m),
      ecdsa_sign = (\<lambda>k r m. k @ m)\<rparr>"

declare mine_loop.simps [code]

text \<open>Transactions used to run the model on.\<close>

definition demo_tx :: Transaction where
  "demo_tx = Transaction_init (Some ''ab'') (Some ''cd'') 100"

definition demo_tx_signed :: Transaction where
  "demo_tx_signed = snd (sign demo_env ''ab'' 0 demo_tx)"

definition demo_tx_empty_sig :: Transaction where
  "demo_tx_empty_sig = demo_tx\<lparr>signature := Some []\<rparr>"

definition demo_tx_bad_sig :: Transaction where
  "demo_tx_bad_sig = demo_tx\<lparr>signature := Some ''zz''\<rparr>"

definition demo_tx_bad_addr :: Transaction where
  "demo_tx_bad_addr = demo_tx_signed\<lparr>from_address := Some ''xyz''\<rparr>"

definition demo_coinbase :: Transaction where
  "demo_coinbase = Transaction_init None (Some ''ee'') 50"

text \<open>
  The target of mining in the words of the specification: the hash has at least
  \<open>d\<close> leading characters \<^verbatim>\<open>0\<close>, for the difficulty \<open>d\<close>.
\<close>

definition leading_zeros :: "string \<Rightarrow> nat" where
  "leading_zeros h = length (takeWhile (\<lambda>c. c = CHR ''0'') h)"

definition meets_target :: "string \<Rightarrow> int \<Rightarrow> bool" where
  "meets_target h d = (d \<le> int (leading_zeros h))"

text \<open>The genesis block of the instance, created at time 0.\<close>

definition demo_genesis :: Block where
  "demo_genesis = big_bang demo_env 0"

text \<open>The reward transaction that \<^verbatim>\<open>mine_transaction_pool\<close> builds.\<close>

definition reward_transaction :: "string option \<Rightarrow> Chain \<Rightarrow> Transaction" where
  "reward_transaction miner_reward_address c =
     \<lparr>from_address = None, to_address = miner_reward_address, amount = miner_reward c,
      signature = None\<rparr>"

text \<open>Chains of the instance: a new chain of difficulty 2, and the same with the signed
  transfer, or a transfer with a wrong signature, in its pool.\<close>

definition demo_chain :: Chain where
  "demo_chain = Chain_init demo_env 2 0"

definition demo_chain_pooled :: Chain where
  "demo_chain_pooled = demo_chain\<lparr>transaction_pool := [demo_tx_signed]\<rparr>"

definition demo_chain_bad_pool :: Chain where
  "demo_chain_bad_pool = demo_chain\<lparr>transaction_pool := [demo_tx_bad_sig]\<rparr>"

text \<open>The block that mining the pool of \<open>demo_chain_pooled\<close> produces at time 0 for the
  reward address \<^verbatim>\<open>ee\<close>, and the chain with that block.\<close>

definition demo_block1 :: Block where
  "demo_block1 =
     \<lparr>transactions = [demo_tx_signed, reward_transaction (Some ''ee'') demo_chain],
      previous_hash = ''01]['', timestamp = 0, nonce = 10,
      hash = ''001[]10]}enoN,05,ee,enoN{}abcd100ba,001,dc,ba{[''\<rparr>"

definition demo_chain_mined :: Chain where
  "demo_chain_mined =
     demo_chain\<lparr>heap := [demo_genesis, demo_block1], chain := [0, 1], transaction_pool := []\<rparr>"

text \<open>
  The three checks of \<^verbatim>\<open>validate_chain\<close> on a block \<open>b\<close> with predecessor \<open>p\<close>, in the
  words of the specification: all transactions of \<open>b\<close> are valid, the stored hash of
  \<open>b\<close> is its recomputed hash, and the previous hash of \<open>b\<close> is the stored hash of \<open>p\<close>.
\<close>

definition block_checks :: "env \<Rightarrow> Block \<Rightarrow> Block \<Rightarrow> bool" where
  "block_checks E p b =
     ((\<forall>t \<in> set (transactions b). is_valid E t = Inr True) \<and>
      hash b = Block_compute_hash E b \<and> previous_hash b = hash p)"

text \<open>
  The first of the three checks on \<open>b\<close> that does not pass gives false: a transaction
  is found invalid, or the transactions are valid and one of the two hash tests fails.
\<close>

definition block_check_fails :: "env \<Rightarrow> Block \<Rightarrow> Block \<Rightarrow> bool" where
  "block_check_fails E p b =
     (validate_transactions E b = Inr False \<or>
      (validate_transactions E b = Inr True \<and>
       (hash b \<noteq> Block_compute_hash E b \<or> previous_hash b \<noteq> hash p)))"

text \<open>
  Chains of the instance for validation: the mined chain with the amount of the transfer
  changed afterwards; the mined chain with the nonce of the genesis block changed
  afterwards; the mined chain followed by one more block, with a wrong previous hash; and chains whose second
  block holds an unsigned transfer, alone or after a transfer with a wrong signature.
\<close>

definition demo_chain_tampered :: Chain where
  "demo_chain_tampered =
     demo_chain_mined\<lparr>heap :=
       [demo_genesis,
        demo_block1\<lparr>transactions :=
          [demo_tx_signed\<lparr>amount := 1000\<rparr>, reward_transaction (Some ''ee'') demo_chain]\<rparr>]\<rparr>"

definition demo_chain_stale_genesis :: Chain where
  "demo_chain_stale_genesis =
     demo_chain_mined\<lparr>heap := [demo_genesis\<lparr>nonce := 99\<rparr>, demo_block1]\<rparr>"

definition demo_chain_three :: Chain where
  "demo_chain_three =
     demo_chain_mined\<lparr>heap := [demo_genesis, demo_block1, Block_init demo_env [] ''xx'' 7],
                       chain := [0, 1, 2]\<rparr>"

definition demo_chain_unsigned :: Chain where
  "demo_chain_unsigned =
     demo_chain\<lparr>heap := [demo_genesis, Block_init demo_env [demo_tx] ''01]['' 0],
                 chain := [0, 1]\<rparr>"

definition demo_chain_bad_then_unsigned :: Chain where
  "demo_chain_bad_then_unsigned =
     demo_chain\<lparr>heap := [demo_genesis,
                          Block_init demo_env [demo_tx_bad_sig, demo_tx] ''01]['' 0],
                 chain := [0, 1]\<rparr>"

text \<open>
  The states a chain object can be in. It is created by the constructor; its caller
  creates blocks with the constructor of \<^verbatim>\<open>Block\<close>, which puts a new object in the store,
  and calls \<^verbatim>\<open>add_transaction\<close>, \<^verbatim>\<open>mine_transaction_pool\<close> and \<^verbatim>\<open>add_block_to_chain\<close>,
  the last with a reference to any block object there is, and \<^verbatim>\<open>set_difficulty\<close>. A call
  that raises leaves a state too, and a call that does not return leaves none.
\<close>

inductive reachable :: "env \<Rightarrow> Chain \<Rightarrow> bool" for E :: env where
  init: "reachable E (Chain_init E d now)"
| construct: "reachable E c \<Longrightarrow> reachable E (c\<lparr>heap := heap c @ [Block_init E txs prev now]\<rparr>)"
| add_tx: "reachable E c \<Longrightarrow> add_transaction E t c = (r, c') \<Longrightarrow> reachable E c'"
| mine_pool:
    "reachable E c \<Longrightarrow> mine_transaction_pool E now a c = Some (r, c') \<Longrightarrow> reachable E c'"
| add_block:
    "reachable E c \<Longrightarrow> ref < length (heap c) \<Longrightarrow>
     add_block_to_chain E ref c = Some (r, c') \<Longrightarrow> reachable E c'"
| set_diff: "reachable E c \<Longrightarrow> reachable E (set_difficulty d c)"


text \<open>The invariant of the chain, in the words of the specification.\<close>

definition chain_invariant :: "env \<Rightarrow> Chain \<Rightarrow> bool" where
  "chain_invariant E c =
     (let bs = blocks c
      in bs \<noteq> [] \<and> previous_hash (bs ! 0) = [] \<and>
         (\<forall>i \<in> {1..<length bs}. previous_hash (bs ! i) = hash (bs ! (i - 1))) \<and>
         (\<forall>i \<in> {0..<length bs}. hash (bs ! i) = Block_compute_hash E (bs ! i)) \<and>
         (\<forall>i \<in> {0..<length bs}. \<forall>t \<in> set (transactions (bs ! i)).
            from_address t \<noteq> None \<longrightarrow> is_valid E t = Inr True))"




text \<open>A signed transfer of a negative amount, a chain with it in the pool, and that chain
  after mining the pool.\<close>

definition demo_tx_negative :: Transaction where
  "demo_tx_negative =
     snd (sign demo_env ''ab'' 0 (Transaction_init (Some ''ab'') (Some ''cd'') (- 5)))"

definition demo_chain_negative_pooled :: Chain where
  "demo_chain_negative_pooled = demo_chain\<lparr>transaction_pool := [demo_tx_negative]\<rparr>"


lemmas demo_defs =
  demo_env_def demo_tx_repr_def demo_tx_def demo_tx_signed_def demo_tx_empty_sig_def
  demo_tx_bad_sig_def demo_tx_bad_addr_def demo_coinbase_def Transaction_init_def sign_def
  Transaction_compute_hash_def Block_compute_hash_def Block_init_def str_opt_def
  str_int_def str_nat.simps digit_char_def py_prefix_def get_answer_def falsy_def
  demo_genesis_def big_bang_def demo_chain_def demo_chain_pooled_def demo_chain_bad_pool_def
  Chain_init_def demo_tx_negative_def demo_chain_negative_pooled_def demo_chain_tampered_def demo_chain_stale_genesis_def demo_chain_three_def demo_chain_unsigned_def
  demo_chain_bad_then_unsigned_def demo_block1_def demo_chain_mined_def reward_transaction_def

section \<open>Transactions\<close>



text \<open>
  Claim C5, as it is written: with a sender and a signature that is not absent,
  \<^verbatim>\<open>is_valid\<close> returns a boolean. It does not hold for the empty byte string, which is a
  signature that is present and that \<^verbatim>\<open>not self.signature\<close> rejects.
\<close>

theorem C5_empty_signature_raises:
  "from_address demo_tx_empty_sig \<noteq> None \<and> signature demo_tx_empty_sig \<noteq> None \<and>
   is_valid demo_env demo_tx_empty_sig = Inl (ValueError MissingSignature)"
  by (simp add: demo_defs is_valid_def)

text \<open>
  Claim C5, amended: without a sender \<^verbatim>\<open>is_valid\<close> returns true; with a sender and a
  signature that is absent or empty it fails with the missing-signature error; with a
  sender and a non-empty signature it returns a boolean, which is true iff the sender
  decodes to a public key and the signature verifies over the hash of the transaction
  under that key. A malformed address and a signature mismatch both give false.
\<close>

theorem C5_is_valid_cases:
  "(from_address t = None \<longrightarrow> is_valid E t = Inr True) \<and>
   (from_address t \<noteq> None \<and> (signature t = None \<or> signature t = Some []) \<longrightarrow>
      is_valid E t = Inl (ValueError MissingSignature)) \<and>
   (from_address t = Some addr \<and> signature t = Some sg \<and> sg \<noteq> [] \<longrightarrow>
      is_valid E t =
        Inr (\<exists>public_key. from_encoded_point E addr = Some public_key \<and>
               ecdsa_verify E public_key sg (Transaction_compute_hash E t))) \<and>
   (from_address t = Some addr \<and> signature t = Some sg \<and> sg \<noteq> [] \<and>
      from_encoded_point E addr = None \<longrightarrow> is_valid E t = Inr False) \<and>
   (from_address t = Some addr \<and> signature t = Some sg \<and> sg \<noteq> [] \<and>
      from_encoded_point E addr = Some k \<and>
      \<not> ecdsa_verify E k sg (Transaction_compute_hash E t) \<longrightarrow> is_valid E t = Inr False)"
  by (auto simp: is_valid_def split: option.splits)

theorem C5_is_valid_cases_witness:
  "from_address demo_coinbase = None \<and> is_valid demo_env demo_coinbase = Inr True \<and>
   from_address demo_tx \<noteq> None \<and> signature demo_tx = None \<and>
   is_valid demo_env demo_tx = Inl (ValueError MissingSignature) \<and>
   signature demo_tx_signed = Some ''ab001dcba'' \<and>
   is_valid demo_env demo_tx_signed = Inr True \<and>
   from_encoded_point demo_env ''xyz'' = None \<and>
   is_valid demo_env demo_tx_bad_addr = Inr False \<and>
   is_valid demo_env demo_tx_bad_sig = Inr False"
proof -
  have h1: "from_address demo_coinbase = None"
    by (simp add: demo_defs)
  have h2: "from_address demo_tx \<noteq> None \<and> signature demo_tx = None"
    by (simp add: demo_defs)
  have h3: "from_address demo_tx_signed = Some ''ab'' \<and>
            signature demo_tx_signed = Some ''ab001dcba'' \<and> ''ab001dcba'' \<noteq> []"
    by (simp add: demo_defs)
  have v3: "\<exists>public_key. from_encoded_point demo_env ''ab'' = Some public_key \<and>
              ecdsa_verify demo_env public_key ''ab001dcba''
                (Transaction_compute_hash demo_env demo_tx_signed)"
    by (simp add: demo_defs)
  have h4: "from_address demo_tx_bad_addr = Some ''xyz'' \<and>
            signature demo_tx_bad_addr = Some ''ab001dcba'' \<and> ''ab001dcba'' \<noteq> [] \<and>
            from_encoded_point demo_env ''xyz'' = None"
    by (simp add: demo_defs)
  have h5: "from_address demo_tx_bad_sig = Some ''ab'' \<and>
            signature demo_tx_bad_sig = Some ''zz'' \<and> ''zz'' \<noteq> [] \<and>
            from_encoded_point demo_env ''ab'' = Some ''ab'' \<and>
            \<not> ecdsa_verify demo_env ''ab'' ''zz''
                (Transaction_compute_hash demo_env demo_tx_bad_sig)"
    by (simp add: demo_defs)
  show ?thesis
    using h1 h2 h3 v3 h4 h5
      C5_is_valid_cases [where t = demo_coinbase and E = demo_env]
      C5_is_valid_cases [where t = demo_tx and E = demo_env]
      C5_is_valid_cases [where t = demo_tx_signed and E = demo_env and addr = "''ab''"
                           and sg = "''ab001dcba''"]
      C5_is_valid_cases [where t = demo_tx_bad_addr and E = demo_env and addr = "''xyz''"
                           and sg = "''ab001dcba''"]
      C5_is_valid_cases [where t = demo_tx_bad_sig and E = demo_env and addr = "''ab''"
                           and sg = "''zz''" and k = "''ab''"]
    by simp
qed

section \<open>Mining\<close>

lemma take_replicate_leading:
  "take n h = replicate n c \<Longrightarrow> n \<le> length h \<Longrightarrow> n \<le> length (takeWhile (\<lambda>x. x = c) h)"
proof (induction h arbitrary: n)
  case Nil
  then show ?case by simp
next
  case (Cons a h)
  show ?case
  proof (cases n)
    case 0
    then show ?thesis by simp
  next
    case (Suc m)
    with Cons.prems have "a = c" "take m h = replicate m c" "m \<le> length h" by auto
    with Cons.IH[of m] Suc show ?thesis by simp
  qed
qed

lemma prefix_answer_meets_target:
  assumes "py_prefix h d = get_answer d"
  shows "meets_target h d"
proof (cases "0 \<le> d")
  case True
  with assms have eq: "take (nat d) h = replicate (nat d) CHR ''0''"
    by (simp add: py_prefix_def get_answer_def)
  then have "length (take (nat d) h) = nat d" by simp
  then have "nat d \<le> length h" by simp
  with eq have "nat d \<le> leading_zeros h"
    unfolding leading_zeros_def by (rule take_replicate_leading)
  with True show ?thesis by (simp add: meets_target_def)
next
  case False
  then show ?thesis by (simp add: meets_target_def)
qed

lemma mine_loop_result:
  assumes "mine_loop E d b = Some b'"
  shows "hash b' = Block_compute_hash E b' \<and> py_prefix (hash b') d = get_answer d \<and>
     transactions b' = transactions b \<and> previous_hash b' = previous_hash b \<and>
     timestamp b' = timestamp b \<and> nonce b \<le> nonce b'"
  using assms
proof (induction E d b b' rule: mine_loop.raw_induct [rotated 1, consumes 1])
  case (1 mine_loop E d b b')
  show ?case
  proof (cases "py_prefix (Block_compute_hash E b) d \<noteq> get_answer d")
    case True
    let ?b2 = "b\<lparr>hash := Block_compute_hash E b, nonce := nonce b + 1\<rparr>"
    from True "1.hyps"
    have "mine_loop E d (?b2\<lparr>hash := Block_compute_hash E ?b2\<rparr>) = Some b'"
      by (simp add: Let_def)
    from "1.IH"[OF this] show ?thesis by auto
  next
    case False
    with "1.hyps" have "b' = b\<lparr>hash := Block_compute_hash E b\<rparr>"
      by (simp add: Let_def)
    with False show ?thesis by (simp add: Block_compute_hash_def)
  qed
qed

lemma mine_loop_zero: "mine_loop E 0 b = Some (b\<lparr>hash := Block_compute_hash E b\<rparr>)"
  by (subst mine_loop.simps) (simp add: py_prefix_def get_answer_def)


lemma mine_success:
  assumes "mine E d b = Some (Inr (), b')"
  shows "validate_transactions E b = Inr True \<and> mine_loop E d b = Some b'"
  using assms
  by (auto simp: mine_def split: sum.splits if_splits option.splits)

text \<open>
  Claim C6: whenever \<^verbatim>\<open>mine\<close> returns normally, the hash of the block has at least
  \<open>d\<close> leading characters \<^verbatim>\<open>0\<close> and is the hash recomputed over the transactions,
  previous hash, nonce and timestamp the block then has (mining changes only nonce and
  hash). With difficulty 0 and valid transactions, \<^verbatim>\<open>mine\<close> returns after the first
  computation of the hash, with the nonce it started from.
\<close>

theorem C6_mine_result:
  "(mine E d b = Some (Inr (), b') \<longrightarrow>
      meets_target (hash b') d \<and> hash b' = Block_compute_hash E b' \<and>
      transactions b' = transactions b \<and> previous_hash b' = previous_hash b \<and>
      timestamp b' = timestamp b) \<and>
   (validate_transactions E b = Inr True \<longrightarrow>
      mine E 0 b = Some (Inr (), b\<lparr>hash := Block_compute_hash E b\<rparr>) \<and>
      meets_target (Block_compute_hash E b) 0)"
proof (intro conjI impI)
  assume m: "mine E d b = Some (Inr (), b')"
  then have l: "mine_loop E d b = Some b'"
    using mine_success by blast
  from mine_loop_result [OF l]
  have p: "py_prefix (hash b') d = get_answer d"
    and r: "hash b' = Block_compute_hash E b'" "transactions b' = transactions b"
      "previous_hash b' = previous_hash b" "timestamp b' = timestamp b"
    by blast+
  from p show "meets_target (hash b') d"
    by (rule prefix_answer_meets_target)
  from r show "hash b' = Block_compute_hash E b'"
    "transactions b' = transactions b" "previous_hash b' = previous_hash b"
    "timestamp b' = timestamp b"
    by blast+
next
  assume "validate_transactions E b = Inr True"
  then show "mine E 0 b = Some (Inr (), b\<lparr>hash := Block_compute_hash E b\<rparr>)"
    by (simp add: mine_def mine_loop_zero)
next
  show "meets_target (Block_compute_hash E b) 0"
    by (simp add: meets_target_def)
qed

theorem C6_mine_result_witness:
  "mine demo_env 2 demo_genesis =
     Some (Inr (), demo_genesis\<lparr>nonce := 10, hash := ''001][''\<rparr>) \<and>
   meets_target ''001]['' 2 \<and>
   Block_compute_hash demo_env (demo_genesis\<lparr>nonce := 10, hash := ''001][''\<rparr>) = ''001]['' \<and>
   validate_transactions demo_env demo_genesis = Inr True \<and>
   mine demo_env 0 demo_genesis = Some (Inr (), demo_genesis)"
proof -
  have v: "validate_transactions demo_env demo_genesis = Inr True"
    by (simp add: validate_transactions_def demo_defs)
  have l: "mine_loop demo_env 2 demo_genesis =
             Some (demo_genesis\<lparr>nonce := 10, hash := ''001][''\<rparr>)"
    by code_simp
  have m: "mine demo_env 2 demo_genesis =
             Some (Inr (), demo_genesis\<lparr>nonce := 10, hash := ''001][''\<rparr>)"
    by (simp add: mine_def v l)
  have g: "demo_genesis\<lparr>hash := Block_compute_hash demo_env demo_genesis\<rparr> = demo_genesis"
    by (simp add: demo_defs Let_def)
  show ?thesis
    using v m g
      C6_mine_result [where E = demo_env and d = 2 and b = demo_genesis
                        and b' = "demo_genesis\<lparr>nonce := 10, hash := ''001][''\<rparr>"]
    by simp
qed

section \<open>The pool and mining it\<close>

lemma add_transaction_failure:
  "fst (add_transaction E t c) = Inl e \<Longrightarrow> snd (add_transaction E t c) = c"
  by (auto simp: add_transaction_def split: sum.splits if_splits)





text \<open>
  Claim C8: \<^verbatim>\<open>add_transaction\<close> fails with the invalid-address error when sender or
  recipient is empty or absent, so also for a reward transaction, which has no sender;
  with both addresses present it fails with the invalid-transaction error when
  \<^verbatim>\<open>is_valid\<close> returns false, and appends the transaction at the end of the pool when
  \<^verbatim>\<open>is_valid\<close> returns true. Whenever it fails, the chain object, and so the length of
  the pool, is as before. (When \<^verbatim>\<open>is_valid\<close> itself raises, the last clause applies;
  which error it is belongs to claim C9.)
\<close>

theorem C8_add_transaction:
  "(from_address t = None \<or> from_address t = Some [] \<or>
    to_address t = None \<or> to_address t = Some [] \<longrightarrow>
      add_transaction E t c = (Inl (ValueError InvalidAddress), c)) \<and>
   (from_address t = Some a \<and> a \<noteq> [] \<and> to_address t = Some b \<and> b \<noteq> [] \<and>
    is_valid E t = Inr False \<longrightarrow>
      add_transaction E t c = (Inl (ValueError InvalidTransaction), c)) \<and>
   (from_address t = Some a \<and> a \<noteq> [] \<and> to_address t = Some b \<and> b \<noteq> [] \<and>
    is_valid E t = Inr True \<longrightarrow>
      add_transaction E t c = (Inr (), c\<lparr>transaction_pool := transaction_pool c @ [t]\<rparr>)) \<and>
   (fst (add_transaction E t c) = Inl e \<longrightarrow>
      snd (add_transaction E t c) = c \<and>
      length (transaction_pool (snd (add_transaction E t c))) = length (transaction_pool c))"
proof (intro conjI impI)
  assume "from_address t = None \<or> from_address t = Some [] \<or>
          to_address t = None \<or> to_address t = Some []"
  then show "add_transaction E t c = (Inl (ValueError InvalidAddress), c)"
    by (auto simp: add_transaction_def falsy_def)
next
  assume "from_address t = Some a \<and> a \<noteq> [] \<and> to_address t = Some b \<and> b \<noteq> [] \<and>
          is_valid E t = Inr False"
  then show "add_transaction E t c = (Inl (ValueError InvalidTransaction), c)"
    by (simp add: add_transaction_def falsy_def)
next
  assume "from_address t = Some a \<and> a \<noteq> [] \<and> to_address t = Some b \<and> b \<noteq> [] \<and>
          is_valid E t = Inr True"
  then show "add_transaction E t c =
               (Inr (), c\<lparr>transaction_pool := transaction_pool c @ [t]\<rparr>)"
    by (simp add: add_transaction_def falsy_def)
next
  assume f: "fst (add_transaction E t c) = Inl e"
  then show "snd (add_transaction E t c) = c"
    by (rule add_transaction_failure)
  then show "length (transaction_pool (snd (add_transaction E t c))) =
             length (transaction_pool c)"
    by simp
qed

theorem C8_add_transaction_witness:
  "add_transaction demo_env (demo_tx_signed\<lparr>to_address := Some []\<rparr>) demo_chain_pooled =
     (Inl (ValueError InvalidAddress), demo_chain_pooled) \<and>
   add_transaction demo_env demo_coinbase demo_chain_pooled =
     (Inl (ValueError InvalidAddress), demo_chain_pooled) \<and>
   is_valid demo_env demo_tx_bad_sig = Inr False \<and>
   add_transaction demo_env demo_tx_bad_sig demo_chain_pooled =
     (Inl (ValueError InvalidTransaction), demo_chain_pooled) \<and>
   is_valid demo_env demo_tx_signed = Inr True \<and>
   add_transaction demo_env demo_tx_signed demo_chain_pooled =
     (Inr (), demo_chain_pooled\<lparr>transaction_pool := [demo_tx_signed, demo_tx_signed]\<rparr>) \<and>
   length (transaction_pool (snd (add_transaction demo_env demo_coinbase demo_chain_pooled)))
     = 1"
proof -
  have h1: "to_address (demo_tx_signed\<lparr>to_address := Some []\<rparr>) = Some []"
    by simp
  have h2: "from_address demo_coinbase = None"
    by (simp add: demo_defs)
  have h3: "from_address demo_tx_bad_sig = Some ''ab'' \<and> ''ab'' \<noteq> [] \<and>
            to_address demo_tx_bad_sig = Some ''cd'' \<and> ''cd'' \<noteq> [] \<and>
            is_valid demo_env demo_tx_bad_sig = Inr False"
    by (simp add: demo_defs is_valid_def)
  have h4: "from_address demo_tx_signed = Some ''ab'' \<and> ''ab'' \<noteq> [] \<and>
            to_address demo_tx_signed = Some ''cd'' \<and> ''cd'' \<noteq> [] \<and>
            is_valid demo_env demo_tx_signed = Inr True"
    by (simp add: demo_defs is_valid_def)
  have p: "transaction_pool demo_chain_pooled = [demo_tx_signed]"
    by (simp add: demo_chain_pooled_def)
  note r1 = C8_add_transaction [where t = "demo_tx_signed\<lparr>to_address := Some []\<rparr>"
      and E = demo_env and c = demo_chain_pooled, THEN conjunct1, rule_format]
  note r2 = C8_add_transaction [where t = demo_coinbase and E = demo_env
      and c = demo_chain_pooled]
  note r3 = C8_add_transaction [where t = demo_tx_bad_sig and E = demo_env
      and c = demo_chain_pooled and a = "''ab''" and b = "''cd''"]
  note r4 = C8_add_transaction [where t = demo_tx_signed and E = demo_env
      and c = demo_chain_pooled and a = "''ab''" and b = "''cd''"]
  have a1: "add_transaction demo_env (demo_tx_signed\<lparr>to_address := Some []\<rparr>)
              demo_chain_pooled = (Inl (ValueError InvalidAddress), demo_chain_pooled)"
    using r1 h1 by blast
  have a2: "add_transaction demo_env demo_coinbase demo_chain_pooled =
              (Inl (ValueError InvalidAddress), demo_chain_pooled)"
    using r2 h2 by blast
  have a3: "add_transaction demo_env demo_tx_bad_sig demo_chain_pooled =
              (Inl (ValueError InvalidTransaction), demo_chain_pooled)"
    using r3 h3 by blast
  have a4: "add_transaction demo_env demo_tx_signed demo_chain_pooled =
     (Inr (), demo_chain_pooled\<lparr>transaction_pool := [demo_tx_signed, demo_tx_signed]\<rparr>)"
    using r4 h4 p by simp
  show ?thesis
    using a1 a2 a3 a4 h3 h4 p by simp
qed







section \<open>Validation of the chain\<close>

lemma validate_transactions_loop_True:
  "validate_transactions_loop E ts = Inr True \<longleftrightarrow> (\<forall>t \<in> set ts. is_valid E t = Inr True)"
  by (induction ts) (auto split: sum.splits)

lemma validate_transactions_True:
  "validate_transactions E b = Inr True \<longleftrightarrow>
     (\<forall>t \<in> set (transactions b). is_valid E t = Inr True)"
  by (simp add: validate_transactions_def validate_transactions_loop_True)

lemma validate_transactions_loop_stops:
  assumes "\<forall>u \<in> set pre. is_valid E u = Inr True"
  shows "validate_transactions_loop E (pre @ t # post) =
           (case is_valid E t of
              Inl e \<Rightarrow> Inl e
            | Inr v \<Rightarrow> if \<not> v then Inr False else validate_transactions_loop E post)"
  using assms by (induction pre) auto

lemma block_checks_passes:
  "block_checks E p b \<longleftrightarrow>
     validate_transactions E b = Inr True \<and> hash b = Block_compute_hash E b \<and>
     previous_hash b = hash p"
  by (simp add: block_checks_def validate_transactions_True)

lemma validate_chain_loop_step:
  assumes "i < length bs" "block_checks E (bs ! (i - 1)) (bs ! i)"
  shows "validate_chain_loop E bs i = validate_chain_loop E bs (Suc i)"
  using assms
  by (subst validate_chain_loop.simps) (simp add: block_checks_passes Let_def)

lemma validate_chain_loop_skip:
  assumes "i \<le> k" "k \<le> length bs"
    and "\<forall>j. i \<le> j \<and> j < k \<longrightarrow> block_checks E (bs ! (j - 1)) (bs ! j)"
  shows "validate_chain_loop E bs i = validate_chain_loop E bs k"
  using assms
proof (induction "k - i" arbitrary: i)
  case 0
  then show ?case by simp
next
  case (Suc n)
  then have "i < k" by simp
  with Suc.prems have "i < length bs" "block_checks E (bs ! (i - 1)) (bs ! i)"
    by auto
  then have "validate_chain_loop E bs i = validate_chain_loop E bs (Suc i)"
    by (rule validate_chain_loop_step)
  also have "\<dots> = validate_chain_loop E bs k"
    using Suc.hyps Suc.prems \<open>i < k\<close> by (intro Suc.hyps(1)) auto
  finally show ?case .
qed

lemma validate_chain_loop_end: "length bs \<le> i \<Longrightarrow> validate_chain_loop E bs i = Inr True"
  by (subst validate_chain_loop.simps) simp

lemma validate_chain_loop_fails:
  assumes "k < length bs" "block_check_fails E (bs ! (k - 1)) (bs ! k)"
  shows "validate_chain_loop E bs k = Inr False"
  using assms
  by (subst validate_chain_loop.simps) (auto simp: block_check_fails_def Let_def)

lemma validate_chain_loop_raises:
  assumes "k < length bs" "validate_transactions E (bs ! k) = Inl e"
  shows "validate_chain_loop E bs k = Inl e"
  using assms
  by (subst validate_chain_loop.simps) (simp add: Let_def)

lemma validate_chain_loop_True:
  "validate_chain_loop E bs i = Inr True \<longleftrightarrow>
     (\<forall>j. i \<le> j \<and> j < length bs \<longrightarrow> block_checks E (bs ! (j - 1)) (bs ! j))"
proof (induction E bs i rule: validate_chain_loop.induct)
  case (1 E bs i)
  show ?case
  proof (cases "i < length bs")
    case False
    then have "validate_chain_loop E bs i = Inr True"
      by (simp add: validate_chain_loop_end)
    with False show ?thesis by auto
  next
    case True
    show ?thesis
    proof (cases "block_checks E (bs ! (i - 1)) (bs ! i)")
      case ok: True
      then have v: "validate_transactions E (bs ! i) = Inr True"
        and h: "hash (bs ! i) = Block_compute_hash E (bs ! i)"
        and l: "previous_hash (bs ! i) = hash (bs ! (i - 1))"
        by (simp_all add: block_checks_passes)
      have "validate_chain_loop E bs i = validate_chain_loop E bs (Suc i)"
        using True ok by (rule validate_chain_loop_step)
      also have "\<dots> = Inr True \<longleftrightarrow>
          (\<forall>j. Suc i \<le> j \<and> j < length bs \<longrightarrow> block_checks E (bs ! (j - 1)) (bs ! j))"
        using "1.IH" [OF True refl v] h l by simp
      also have "\<dots> \<longleftrightarrow>
          (\<forall>j. i \<le> j \<and> j < length bs \<longrightarrow> block_checks E (bs ! (j - 1)) (bs ! j))"
        using ok by (metis Suc_leI le_neq_implies_less Suc_leD)
      finally show ?thesis .
    next
      case bad: False
      have "validate_chain_loop E bs i \<noteq> Inr True"
        using True bad
        by (subst validate_chain_loop.simps)
           (auto simp: block_checks_passes Let_def split: sum.splits)
      then show ?thesis using True bad by auto
    qed
  qed
qed

lemma validate_chain_loop_genesis:
  assumes "hash g' = hash g" "1 \<le> i"
  shows "validate_chain_loop E (g' # rest) i = validate_chain_loop E (g # rest) i"
  using assms
proof (induction "length rest + 1 - i" arbitrary: i)
  case 0
  then show ?case by (simp add: validate_chain_loop_end)
next
  case (Suc n)
  then have i: "i < length (g # rest)" "i < length (g' # rest)" by simp_all
  have IH: "validate_chain_loop E (g' # rest) (Suc i) = validate_chain_loop E (g # rest) (Suc i)"
    using Suc by (intro Suc.hyps(1)) auto
  have p: "hash ((g' # rest) ! (i - 1)) = hash ((g # rest) ! (i - 1))"
    using Suc.prems by (cases "i - 1") simp_all
  have c: "(g' # rest) ! i = (g # rest) ! i"
    using Suc.prems by (cases i) simp_all
  show ?case
    using i IH p c
    by (subst validate_chain_loop.simps, subst (2) validate_chain_loop.simps)
       (auto simp: Let_def split: sum.splits)
qed


text \<open>
  Claim C1: on a chain of one block, \<^verbatim>\<open>validate_chain\<close> returns whether the stored hash
  of that block is its recomputed hash. On a chain of two or more blocks it returns true
  iff every block from index 1 on passes the three checks; if the blocks before index
  \<open>k\<close> pass them and the first check on block \<open>k\<close> that does not pass gives false, it
  returns false, whatever follows; and the result only depends on the stored hash of the
  genesis block, not on its other fields.
\<close>

theorem C1_validate_chain:
  "(length (blocks c) = 1 \<longrightarrow>
      validate_chain E c = Inr (hash (blocks c ! 0) = Block_compute_hash E (blocks c ! 0))) \<and>
   (2 \<le> length (blocks c) \<longrightarrow>
      (validate_chain E c = Inr True \<longleftrightarrow>
         (\<forall>i. 1 \<le> i \<and> i < length (blocks c) \<longrightarrow>
            block_checks E (blocks c ! (i - 1)) (blocks c ! i)))) \<and>
   (2 \<le> length (blocks c) \<and> 1 \<le> k \<and> k < length (blocks c) \<and>
    (\<forall>j. 1 \<le> j \<and> j < k \<longrightarrow> block_checks E (blocks c ! (j - 1)) (blocks c ! j)) \<and>
    block_check_fails E (blocks c ! (k - 1)) (blocks c ! k) \<longrightarrow>
      validate_chain E c = Inr False) \<and>
   (2 \<le> length (blocks c) \<and> blocks c' = g' # tl (blocks c) \<and>
    hash g' = hash (hd (blocks c)) \<longrightarrow>
      validate_chain E c' = validate_chain E c)"
proof (intro conjI impI)
  assume "length (blocks c) = 1"
  then show "validate_chain E c =
               Inr (hash (blocks c ! 0) = Block_compute_hash E (blocks c ! 0))"
    by (simp add: validate_chain_def Let_def)
next
  assume "2 \<le> length (blocks c)"
  then have "validate_chain E c = validate_chain_loop E (blocks c) 1"
    by (simp add: validate_chain_def Let_def)
  then show "validate_chain E c = Inr True \<longleftrightarrow>
         (\<forall>i. 1 \<le> i \<and> i < length (blocks c) \<longrightarrow>
            block_checks E (blocks c ! (i - 1)) (blocks c ! i))"
    by (simp only: validate_chain_loop_True)
next
  assume h: "2 \<le> length (blocks c) \<and> 1 \<le> k \<and> k < length (blocks c) \<and>
    (\<forall>j. 1 \<le> j \<and> j < k \<longrightarrow> block_checks E (blocks c ! (j - 1)) (blocks c ! j)) \<and>
    block_check_fails E (blocks c ! (k - 1)) (blocks c ! k)"
  then have "validate_chain E c = validate_chain_loop E (blocks c) 1"
    by (simp add: validate_chain_def Let_def)
  also have "\<dots> = validate_chain_loop E (blocks c) k"
    using h by (intro validate_chain_loop_skip) auto
  also have "\<dots> = Inr False"
    using h by (intro validate_chain_loop_fails) auto
  finally show "validate_chain E c = Inr False" .
next
  assume h: "2 \<le> length (blocks c) \<and> blocks c' = g' # tl (blocks c) \<and>
    hash g' = hash (hd (blocks c))"
  then obtain g rest where bs: "blocks c = g # rest"
    by (cases "blocks c") auto
  with h have bs': "blocks c' = g' # rest" and hg: "hash g' = hash g" and
    len: "length (g # rest) \<noteq> 1" "length (g' # rest) \<noteq> 1"
    by auto
  have "validate_chain E c' = validate_chain_loop E (g' # rest) 1"
    using len by (simp only: validate_chain_def Let_def bs' if_False)
  also have "\<dots> = validate_chain_loop E (g # rest) 1"
    using hg by (intro validate_chain_loop_genesis) auto
  also have "\<dots> = validate_chain E c"
    using len by (simp only: validate_chain_def Let_def bs if_False)
  finally show "validate_chain E c' = validate_chain E c" .
qed

lemma demo_blocks:
  "blocks demo_chain = [demo_genesis]"
  "blocks demo_chain_mined = [demo_genesis, demo_block1]"
  "blocks demo_chain_tampered =
     [demo_genesis,
      demo_block1\<lparr>transactions :=
        [demo_tx_signed\<lparr>amount := 1000\<rparr>, reward_transaction (Some ''ee'') demo_chain]\<rparr>]"
  "blocks demo_chain_stale_genesis = [demo_genesis\<lparr>nonce := 99\<rparr>, demo_block1]"
  "blocks demo_chain_three = [demo_genesis, demo_block1, Block_init demo_env [] ''xx'' 7]"
  "blocks demo_chain_unsigned = [demo_genesis, Block_init demo_env [demo_tx] ''01]['' 0]"
  "blocks demo_chain_bad_then_unsigned =
     [demo_genesis, Block_init demo_env [demo_tx_bad_sig, demo_tx] ''01]['' 0]"
  by (simp_all add: blocks_def demo_chain_def Chain_init_def demo_genesis_def
      demo_chain_mined_def demo_chain_tampered_def demo_chain_stale_genesis_def
      demo_chain_three_def demo_chain_unsigned_def demo_chain_bad_then_unsigned_def)

lemma demo_block1_checks: "block_checks demo_env demo_genesis demo_block1"
  by (simp add: block_checks_def is_valid_def demo_defs)

theorem C1_validate_chain_witness:
  "length (blocks demo_chain) = 1 \<and> validate_chain demo_env demo_chain = Inr True \<and>
   2 \<le> length (blocks demo_chain_mined) \<and>
   validate_chain demo_env demo_chain_mined = Inr True \<and>
   validate_chain demo_env demo_chain_tampered = Inr False \<and>
   validate_chain demo_env demo_chain_three = Inr False \<and>
   hash (demo_genesis\<lparr>nonce := 99\<rparr>) \<noteq>
     Block_compute_hash demo_env (demo_genesis\<lparr>nonce := 99\<rparr>) \<and>
   validate_chain demo_env demo_chain_stale_genesis = Inr True"
proof -
  have g: "hash demo_genesis = Block_compute_hash demo_env demo_genesis"
    by (simp add: demo_defs Let_def)
  have st: "hash (demo_genesis\<lparr>nonce := 99\<rparr>) \<noteq>
              Block_compute_hash demo_env (demo_genesis\<lparr>nonce := 99\<rparr>)"
    by (simp add: demo_defs Let_def)
  have t: "block_check_fails demo_env demo_genesis
             (demo_block1\<lparr>transactions :=
                [demo_tx_signed\<lparr>amount := 1000\<rparr>,
                 reward_transaction (Some ''ee'') demo_chain]\<rparr>)"
    by (simp add: block_check_fails_def validate_transactions_def is_valid_def demo_defs)
  have l: "block_check_fails demo_env demo_block1 (Block_init demo_env [] ''xx'' 7)"
    by (simp add: block_check_fails_def validate_transactions_def demo_defs Let_def)
  have v1: "validate_chain demo_env demo_chain = Inr True"
    using g C1_validate_chain [where E = demo_env and c = demo_chain]
    by (simp add: demo_blocks)
  have a2: "\<forall>i. 1 \<le> i \<and> i < length (blocks demo_chain_mined) \<longrightarrow>
              block_checks demo_env (blocks demo_chain_mined ! (i - 1))
                (blocks demo_chain_mined ! i)"
    using demo_block1_checks by (auto simp: demo_blocks less_Suc_eq)
  have v2: "validate_chain demo_env demo_chain_mined = Inr True"
    using a2 C1_validate_chain [where E = demo_env and c = demo_chain_mined]
    by (simp add: demo_blocks)
  have v3: "validate_chain demo_env demo_chain_tampered = Inr False"
    using t C1_validate_chain [where E = demo_env and c = demo_chain_tampered and k = 1]
    by (simp add: demo_blocks)
  have a4: "\<forall>j. 1 \<le> j \<and> j < 2 \<longrightarrow>
              block_checks demo_env (blocks demo_chain_three ! (j - 1))
                (blocks demo_chain_three ! j)"
    using demo_block1_checks by (auto simp: demo_blocks less_Suc_eq numeral_2_eq_2)
  have v4: "validate_chain demo_env demo_chain_three = Inr False"
    using l a4 C1_validate_chain [where E = demo_env and c = demo_chain_three and k = 2]
    by (simp add: demo_blocks)
  have v5: "validate_chain demo_env demo_chain_stale_genesis = Inr True"
    using v2 C1_validate_chain [where E = demo_env and c = demo_chain_mined
        and c' = demo_chain_stale_genesis and g' = "demo_genesis\<lparr>nonce := 99\<rparr>"]
    by (simp add: demo_blocks)
  show ?thesis
    using v1 v2 v3 v4 v5 st by (simp add: demo_blocks)
qed

section \<open>Unsigned transactions\<close>

lemma is_valid_unsigned:
  "from_address t \<noteq> None \<Longrightarrow> signature t = None \<Longrightarrow>
     is_valid E t = Inl (ValueError MissingSignature)"
  by (auto simp: is_valid_def split: option.splits)

lemma is_valid_True_signed:
  "is_valid E u = Inr True \<Longrightarrow> from_address u \<noteq> None \<Longrightarrow>
     signature u \<noteq> None \<and> signature u \<noteq> Some []"
  by (auto simp: is_valid_def split: option.splits if_splits)

lemma validate_chain_loop_from_one:
  "length bs \<noteq> 1 \<Longrightarrow> blocks c = bs \<Longrightarrow> validate_chain E c = validate_chain_loop E bs 1"
  by (simp add: validate_chain_def Let_def)

lemma demo_chain_mined_valid: "validate_chain demo_env demo_chain_mined = Inr True"
  by code_simp

text \<open>
  Claim C9, as it is written, ends: \<^verbatim>\<open>validate_chain\<close> returns a boolean only for chains
  in which every transaction with a sender in a block after the first carries a
  signature. It does not hold: the checks stop at the first one that gives false, so an
  unsigned transaction behind a transaction with a wrong signature is never looked at,
  and the result is the boolean false.
\<close>

theorem C9_boolean_with_unsigned:
  "demo_tx \<in> set (transactions (blocks demo_chain_bad_then_unsigned ! 1)) \<and>
   from_address demo_tx \<noteq> None \<and> signature demo_tx = None \<and>
   validate_chain demo_env demo_chain_bad_then_unsigned = Inr False"
proof -
  have v: "validate_chain demo_env demo_chain_bad_then_unsigned = Inr False"
    by code_simp
  have m: "demo_tx \<in> set (transactions (blocks demo_chain_bad_then_unsigned ! 1))"
    by (simp add: demo_blocks Block_init_def Let_def)
  have f: "from_address demo_tx \<noteq> None \<and> signature demo_tx = None"
    by (simp add: demo_tx_def Transaction_init_def)
  from v m f show ?thesis
    by simp
qed

text \<open>
  Claim C9, amended: \<^verbatim>\<open>is_valid\<close> on a transaction with a sender and no signature fails
  with the missing-signature error, and every operation that gets to call it there
  propagates that error: \<^verbatim>\<open>add_transaction\<close> when both addresses are non-empty,
  \<^verbatim>\<open>validate_transactions\<close> and \<^verbatim>\<open>mine\<close> when the transactions before it in the block
  are valid, \<^verbatim>\<open>validate_chain\<close> when moreover the blocks before pass their checks.
  \<^verbatim>\<open>validate_chain\<close> returns true only for chains in which every transaction with a
  sender in a block after the first carries a non-empty signature.
\<close>

theorem C9_missing_signature_propagates:
  "(from_address t \<noteq> None \<and> signature t = None \<longrightarrow>
      is_valid E t = Inl (ValueError MissingSignature)) \<and>
   (from_address t = Some a \<and> a \<noteq> [] \<and> to_address t = Some b \<and> b \<noteq> [] \<and>
    signature t = None \<longrightarrow>
      add_transaction E t c = (Inl (ValueError MissingSignature), c)) \<and>
   (from_address t \<noteq> None \<and> signature t = None \<and> transactions blk = pre @ t # post \<and>
    (\<forall>u \<in> set pre. is_valid E u = Inr True) \<longrightarrow>
      validate_transactions E blk = Inl (ValueError MissingSignature) \<and>
      mine E d blk = Some (Inl (ValueError MissingSignature), blk)) \<and>
   (from_address t \<noteq> None \<and> signature t = None \<and> 1 \<le> k \<and> k < length (blocks c) \<and>
    (\<forall>j. 1 \<le> j \<and> j < k \<longrightarrow> block_checks E (blocks c ! (j - 1)) (blocks c ! j)) \<and>
    transactions (blocks c ! k) = pre @ t # post \<and>
    (\<forall>u \<in> set pre. is_valid E u = Inr True) \<longrightarrow>
      validate_chain E c = Inl (ValueError MissingSignature)) \<and>
   (validate_chain E c = Inr True \<and> 1 \<le> i \<and> i < length (blocks c) \<and>
    u \<in> set (transactions (blocks c ! i)) \<and> from_address u \<noteq> None \<longrightarrow>
      signature u \<noteq> None \<and> signature u \<noteq> Some [])"
proof (intro conjI impI)
  assume "from_address t \<noteq> None \<and> signature t = None"
  then show "is_valid E t = Inl (ValueError MissingSignature)"
    by (simp add: is_valid_unsigned)
next
  assume h: "from_address t = Some a \<and> a \<noteq> [] \<and> to_address t = Some b \<and> b \<noteq> [] \<and>
    signature t = None"
  then have "is_valid E t = Inl (ValueError MissingSignature)"
    by (simp add: is_valid_unsigned)
  with h show "add_transaction E t c = (Inl (ValueError MissingSignature), c)"
    by (simp add: add_transaction_def falsy_def)
next
  assume h: "from_address t \<noteq> None \<and> signature t = None \<and>
    transactions blk = pre @ t # post \<and> (\<forall>u \<in> set pre. is_valid E u = Inr True)"
  then have iv: "is_valid E t = Inl (ValueError MissingSignature)"
    by (simp add: is_valid_unsigned)
  from h have "validate_transactions_loop E (pre @ t # post) =
      Inl (ValueError MissingSignature)"
    by (simp add: validate_transactions_loop_stops iv)
  with h show v: "validate_transactions E blk = Inl (ValueError MissingSignature)"
    by (simp add: validate_transactions_def)
  then show "mine E d blk = Some (Inl (ValueError MissingSignature), blk)"
    by (simp add: mine_def)
next
  assume h: "from_address t \<noteq> None \<and> signature t = None \<and> 1 \<le> k \<and>
    k < length (blocks c) \<and>
    (\<forall>j. 1 \<le> j \<and> j < k \<longrightarrow> block_checks E (blocks c ! (j - 1)) (blocks c ! j)) \<and>
    transactions (blocks c ! k) = pre @ t # post \<and>
    (\<forall>u \<in> set pre. is_valid E u = Inr True)"
  then have iv: "is_valid E t = Inl (ValueError MissingSignature)"
    by (simp add: is_valid_unsigned)
  from h have "validate_transactions_loop E (pre @ t # post) =
      Inl (ValueError MissingSignature)"
    by (simp add: validate_transactions_loop_stops iv)
  with h have v: "validate_transactions E (blocks c ! k) = Inl (ValueError MissingSignature)"
    by (simp add: validate_transactions_def)
  from h have "length (blocks c) \<noteq> 1" by auto
  then have "validate_chain E c = validate_chain_loop E (blocks c) 1"
    by (simp add: validate_chain_loop_from_one)
  also have "\<dots> = validate_chain_loop E (blocks c) k"
    using h by (intro validate_chain_loop_skip) auto
  also have "\<dots> = Inl (ValueError MissingSignature)"
    using h v by (intro validate_chain_loop_raises) auto
  finally show "validate_chain E c = Inl (ValueError MissingSignature)" .
next
  assume h: "validate_chain E c = Inr True \<and> 1 \<le> i \<and> i < length (blocks c) \<and>
    u \<in> set (transactions (blocks c ! i)) \<and> from_address u \<noteq> None"
  then have "length (blocks c) \<noteq> 1" by auto
  then have "validate_chain E c = validate_chain_loop E (blocks c) 1"
    by (simp add: validate_chain_loop_from_one)
  with h have "validate_chain_loop E (blocks c) 1 = Inr True" by simp
  then have "block_checks E (blocks c ! (i - 1)) (blocks c ! i)"
    using h by (simp add: validate_chain_loop_True)
  with h have "is_valid E u = Inr True"
    by (simp add: block_checks_def)
  with h have "signature u \<noteq> None \<and> signature u \<noteq> Some []"
    by (simp add: is_valid_True_signed)
  then show "signature u \<noteq> None" "signature u \<noteq> Some []"
    by simp_all
qed

theorem C9_missing_signature_propagates_witness:
  "from_address demo_tx \<noteq> None \<and> signature demo_tx = None \<and>
   is_valid demo_env demo_tx = Inl (ValueError MissingSignature) \<and>
   add_transaction demo_env demo_tx demo_chain = (Inl (ValueError MissingSignature), demo_chain) \<and>
   mine demo_env 2 (Block_init demo_env [demo_tx_signed, demo_tx] [] 0) =
     Some (Inl (ValueError MissingSignature), Block_init demo_env [demo_tx_signed, demo_tx] [] 0) \<and>
   validate_chain demo_env demo_chain_unsigned = Inl (ValueError MissingSignature) \<and>
   validate_chain demo_env demo_chain_mined = Inr True \<and>
   signature demo_tx_signed \<noteq> None"
proof -
  have h: "from_address demo_tx = Some ''ab'' \<and> ''ab'' \<noteq> [] \<and>
           to_address demo_tx = Some ''cd'' \<and> ''cd'' \<noteq> [] \<and> signature demo_tx = None"
    by (simp add: demo_defs)
  have s: "is_valid demo_env demo_tx_signed = Inr True"
    by (simp add: is_valid_def demo_defs)
  have tb: "transactions (Block_init demo_env [demo_tx_signed, demo_tx] [] 0) =
              [demo_tx_signed] @ demo_tx # []"
    by (simp add: Block_init_def Let_def)
  have tc: "transactions (blocks demo_chain_unsigned ! 1) = [] @ demo_tx # []"
    by (simp add: demo_blocks Block_init_def Let_def)
  have fs: "from_address demo_tx_signed \<noteq> None"
    by (simp add: demo_defs)
  have ts: "demo_tx_signed \<in> set (transactions (blocks demo_chain_mined ! 1))"
    by (simp add: demo_blocks demo_block1_def)
  note r = C9_missing_signature_propagates [where E = demo_env and t = demo_tx]
  have a1: "is_valid demo_env demo_tx = Inl (ValueError MissingSignature)"
    using h r by simp
  have a2: "add_transaction demo_env demo_tx demo_chain =
              (Inl (ValueError MissingSignature), demo_chain)"
    using h r [where a = "''ab''" and b = "''cd''" and c = demo_chain] by simp
  have a3: "mine demo_env 2 (Block_init demo_env [demo_tx_signed, demo_tx] [] 0) =
     Some (Inl (ValueError MissingSignature), Block_init demo_env [demo_tx_signed, demo_tx] [] 0)"
    using h s tb r [where blk = "Block_init demo_env [demo_tx_signed, demo_tx] [] 0"
        and pre = "[demo_tx_signed]" and post = "[]" and d = 2]
    by simp
  have a4: "validate_chain demo_env demo_chain_unsigned = Inl (ValueError MissingSignature)"
    using h tc r [where c = demo_chain_unsigned and k = 1 and pre = "[]" and post = "[]"]
    by (simp add: demo_blocks)
  have a5: "signature demo_tx_signed \<noteq> None"
    using demo_chain_mined_valid fs ts
      C9_missing_signature_propagates [where E = demo_env and c = demo_chain_mined
        and i = 1 and u = demo_tx_signed]
    by (simp add: demo_blocks)
  show ?thesis
    using h a1 a2 a3 a4 a5 demo_chain_mined_valid by simp
qed

section \<open>Amounts\<close>










section \<open>The invariant of the chain\<close>


lemma mine_failure:
  assumes "mine E d b = Some (Inl e, b')"
  shows "b' = b"
  using assms by (auto simp: mine_def split: sum.splits if_splits option.splits)




















text \<open>
  What \<^verbatim>\<open>add_block_to_chain\<close> does to a block of the chain does not depend on the hash
  function: on a new chain of difficulty 0, adding the genesis block itself (the block
  that \<^verbatim>\<open>get_latest_block\<close> returns) succeeds and leaves a first block whose previous
  hash is a digest, which is empty for no hash function that has no empty digest.
\<close>

lemma add_genesis_again:
  assumes "\<forall>s. sha256 E s \<noteq> []"
  shows "\<exists>c'. add_block_to_chain E 0 (Chain_init E 0 now) = Some (Inr (), c') \<and>
           reachable E c' \<and> previous_hash (blocks c' ! 0) \<noteq> [] \<and>
           \<not> chain_invariant E c'"
proof -
  let ?c = "Chain_init E 0 now" and ?g = "Block_init E [] [] now"
  let ?b = "?g\<lparr>previous_hash := hash ?g\<rparr>"
  let ?c' = "?c\<lparr>heap := [?b\<lparr>hash := Block_compute_hash E ?b\<rparr>], chain := [0, 0]\<rparr>"
  have v: "validate_transactions E ?b = Inr True"
    by (simp add: validate_transactions_def Block_init_def Let_def)
  have m: "mine E 0 ?b = Some (Inr (), ?b\<lparr>hash := Block_compute_hash E ?b\<rparr>)"
    by (simp add: mine_def v mine_loop_zero)
  have a: "add_block_to_chain E 0 ?c = Some (Inr (), ?c')"
    by (simp add: add_block_to_chain_def get_latest_block_def Chain_init_def big_bang_def
        m Let_def)
  have "reachable E ?c"
    by (rule reachable.init)
  moreover have "0 < length (heap ?c)"
    by (simp add: Chain_init_def)
  ultimately have r: "reachable E ?c'"
    using a by (rule reachable.add_block)
  have "hash ?g \<noteq> []"
    using assms by (simp add: Block_init_def Let_def Block_compute_hash_def)
  then have p: "previous_hash (blocks ?c' ! 0) \<noteq> []"
    by (simp add: blocks_def)
  then have "\<not> chain_invariant E ?c'"
    by (simp add: chain_invariant_def Let_def)
  with a r p show ?thesis
    by blast
qed




end
